theory Spec2Isabelle
  imports Main
begin

section \<open>WebPreview (Preview.tsx)\<close>

text \<open>
  \<open>PortInfo\<close> is declared in \<open>@/types\<close>; the component reads its fields \<open>port\<close> (a number)
  and \<open>previewUrl\<close>. Port numbers are modelled as integers: the only falsy number that
  can occur is then \<open>0\<close>.
\<close>

record PortInfo =
  port :: int
  previewUrl :: string

text \<open>The props of the component, \<open>sandboxId?: string\<close> and \<open>isActive\<close> (false when
  the caller leaves it out).\<close>

record WebPreviewProps =
  sandboxId :: "string option"
  isActive :: bool

text \<open>
  What \<open>usePreviewLinksQuery\<close> hands back to the component: \<open>data\<close> (possibly undefined)
  and \<open>isLoading\<close>. The hook itself belongs to the query layer and is a parameter here.
\<close>

record PreviewLinksQuery =
  data :: "PortInfo list option"
  loading :: bool

text \<open>The local state: \<open>useState<number | null>(null)\<close>, and the calls made to \<open>refetch\<close>.\<close>

record WebPreviewState =
  selectedPortId :: "int option"
  refetch_calls :: nat

definition initialWebPreviewState :: WebPreviewState where
  "initialWebPreviewState = \<lparr>selectedPortId = None, refetch_calls = 0\<rparr>"

text \<open>\<open>data: ports = []\<close>: the destructuring default.\<close>

definition ports_of :: "PreviewLinksQuery \<Rightarrow> PortInfo list" where
  "ports_of q = (case data q of None \<Rightarrow> [] | Some ps \<Rightarrow> ps)"

text \<open>\<open>!sandboxId\<close>: an absent id and the empty string are both falsy.\<close>

definition no_sandbox :: "WebPreviewProps \<Rightarrow> bool" where
  "no_sandbox props = (case sandboxId props of None \<Rightarrow> True | Some s \<Rightarrow> s = [])"

text \<open>\<open>enabled: !!sandboxId && isActive\<close>.\<close>

definition query_enabled :: "WebPreviewProps \<Rightarrow> bool" where
  "query_enabled props = (\<not> no_sandbox props \<and> isActive props)"

text \<open>
  \<open>ports.length > 0 ? ports.find((p) => p.port === selectedPortId) || ports[0] : null\<close>.
  \<open>find\<close> returns the first match or undefined; a port object is truthy, so \<open>||\<close> takes
  \<open>ports[0]\<close> exactly when nothing matched. A number is never \<open>===\<close> to \<open>null\<close>.
\<close>

definition selectedPort :: "PortInfo list \<Rightarrow> int option \<Rightarrow> PortInfo option" where
  "selectedPort ports sel =
     (case ports of
        [] \<Rightarrow> None
      | p0 # _ \<Rightarrow>
          (case find (\<lambda>p. Some (port p) = sel) ports of
             Some p \<Rightarrow> Some p
           | None \<Rightarrow> Some p0))"

text \<open>
  \<open>setSelectedPortId(port?.port || null)\<close>: a null port gives undefined, and the falsy
  number \<open>0\<close> is replaced by \<open>null\<close> as well.
\<close>

definition setSelectedPort :: "PortInfo option \<Rightarrow> WebPreviewState \<Rightarrow> WebPreviewState" where
  "setSelectedPort p st =
     st\<lparr>selectedPortId :=
          (case p of
             None \<Rightarrow> None
           | Some q \<Rightarrow> if port q = 0 then None else Some (port q))\<rparr>"

definition fetchPorts :: "WebPreviewState \<Rightarrow> WebPreviewState" where
  "fetchPorts st = st\<lparr>refetch_calls := Suc (refetch_calls st)\<rparr>"

text \<open>
  The callbacks the component creates, and the tree it returns. The three branches are
  the message "No sandbox connected", the empty state with its Refresh button
  (\<open>onClick={fetchPorts}\<close>, \<open>disabled={loading}\<close>), and the \<open>Panel\<close> with its five props in
  the order of the source: \<open>previewUrl\<close>, \<open>ports\<close>, \<open>selectedPort\<close>, \<open>onPortChange\<close>,
  \<open>onRefreshPorts\<close>.
\<close>

datatype WebPreviewCallback = FetchPorts | SetSelectedPort

datatype WebPreviewView =
    NoSandboxConnected
  | NoOpenPorts WebPreviewCallback bool
  | Panel "string option" "PortInfo list" "PortInfo option" WebPreviewCallback WebPreviewCallback

definition WebPreview :: "WebPreviewProps \<Rightarrow> PreviewLinksQuery \<Rightarrow> WebPreviewState \<Rightarrow> WebPreviewView" where
  "WebPreview props q st =
     (let ports = ports_of q;
          sel = selectedPort ports (selectedPortId st)
      in if no_sandbox props then NoSandboxConnected
         else if length ports = 0 then NoOpenPorts FetchPorts (loading q)
         else Panel (map_option previewUrl sel) ports sel SetSelectedPort FetchPorts)"

text \<open>The Refresh button that WebPreview renders itself, and every place where a view
  holds the \<open>fetchPorts\<close> callback (as a click handler or as a prop of a child).\<close>

fun refresh_button :: "WebPreviewView \<Rightarrow> bool" where
  "refresh_button (NoOpenPorts h d) = (h = FetchPorts)"
| "refresh_button _ = False"

fun refresh_wired :: "WebPreviewView \<Rightarrow> bool" where
  "refresh_wired NoSandboxConnected = False"
| "refresh_wired (NoOpenPorts h d) = (h = FetchPorts)"
| "refresh_wired (Panel u ps s onPortChange onRefreshPorts) =
     (onPortChange = FetchPorts \<or> onRefreshPorts = FetchPorts)"

definition empty_state :: "WebPreviewProps \<Rightarrow> PreviewLinksQuery \<Rightarrow> bool" where
  "empty_state props q = (\<not> no_sandbox props \<and> ports_of q = [])"

section \<open>JavaScript values\<close>

text \<open>
  The Dropdown is generic in its item type and decides at run time, from the shape of the
  first element, how to read the whole collection. Items are therefore modelled as
  untyped JavaScript values. An object is its list of properties (inherited ones
  included, since \<open>in\<close> sees them); arrays are objects. Strings are lists of code units
  below 256.
\<close>

datatype jsval =
    JUndefined
  | JNull
  | JBool bool
  | JNum int
  | JStr string
  | JObj "(string \<times> jsval) list"

datatype js_error = TypeError

fun typeof :: "jsval \<Rightarrow> string" where
  "typeof JUndefined = ''undefined''"
| "typeof JNull = ''object''"
| "typeof (JBool b) = ''boolean''"
| "typeof (JNum n) = ''number''"
| "typeof (JStr s) = ''string''"
| "typeof (JObj fs) = ''object''"

text \<open>\<open>k in v\<close>, evaluated only where \<open>v\<close> is known to be a non-null object.\<close>

fun has_property :: "string \<Rightarrow> jsval \<Rightarrow> bool" where
  "has_property k (JObj fs) = (map_of fs k \<noteq> None)"
| "has_property k v = False"

text \<open>
  \<open>v.k\<close>: reading a property of \<open>undefined\<close> or \<open>null\<close> throws a TypeError, a missing
  property reads as \<open>undefined\<close>. None of the names read here (\<open>type\<close>, \<open>label\<close>, \<open>data\<close>)
  is a property of a primitive's wrapper.
\<close>

fun get_property :: "jsval \<Rightarrow> string \<Rightarrow> js_error + jsval" where
  "get_property JUndefined k = Inl TypeError"
| "get_property JNull k = Inl TypeError"
| "get_property (JObj fs) k = Inr (case map_of fs k of None \<Rightarrow> JUndefined | Some v \<Rightarrow> v)"
| "get_property v k = Inr JUndefined"

text \<open>
  The string a template literal makes of a value. Numbers are printed in plain decimal,
  which is what JavaScript does for integers of magnitude below \<open>10^21\<close>, and an
  object is printed as by \<open>Object.prototype.toString\<close>; arrays and objects with a
  \<open>toString\<close> of their own are outside the model. Only the key of a header row is made
  this way, and a header's label is a string by its type.
\<close>

fun digit_char :: "nat \<Rightarrow> char" where
  "digit_char n = char_of (of_char CHR ''0'' + n)"

fun digits :: "nat \<Rightarrow> string" where
  "digits n = (if n < 10 then [digit_char n] else digits (n div 10) @ [digit_char (n mod 10)])"

declare digits.simps [simp del]

fun to_string :: "jsval \<Rightarrow> string" where
  "to_string JUndefined = ''undefined''"
| "to_string JNull = ''null''"
| "to_string (JBool b) = (if b then ''true'' else ''false'')"
| "to_string (JNum n) = (if n < 0 then CHR ''-'' # digits (nat (- n)) else digits (nat n))"
| "to_string (JStr s) = s"
| "to_string (JObj fs) = ''[object Object]''"

text \<open>
  \<open>String.prototype.trim\<close> removes white space and line terminators from both ends. Among
  the code units below 256 these are TAB, LF, VT, FF, CR, SP and NBSP.
\<close>

definition is_whitespace :: "char \<Rightarrow> bool" where
  "is_whitespace c =
     (c \<in> set [CHR 0x09, CHR 0x0A, CHR 0x0B, CHR 0x0C, CHR 0x0D, CHR 0x20, CHR 0xA0])"

definition trim :: "string \<Rightarrow> string" where
  "trim s = rev (dropWhile is_whitespace (rev (dropWhile is_whitespace s)))"

section \<open>Dropdown\<close>

text \<open>
  The props the list depends on, after the defaults of the parameter list are applied.
  The styling props (\<open>leftIcon\<close>, \<open>width\<close>, \<open>dropdownPosition\<close>, \<open>compactOnMobile\<close>)
  only select class names and are left out.
  The caller's \<open>getItemKey\<close> and \<open>getItemLabel\<close> are total functions; \<open>'n\<close> is the type
  of the nodes a caller's \<open>renderItem\<close> returns.
\<close>

record 'n DropdownProps =
  "value" :: jsval
  items :: "jsval list"
  getItemKey :: "jsval \<Rightarrow> string"
  getItemLabel :: "jsval \<Rightarrow> string"
  getItemShortLabel :: "(jsval \<Rightarrow> string) option"
  renderItem :: "(jsval \<Rightarrow> bool \<Rightarrow> 'n) option"
  itemClassName :: "string option"
  disabled :: bool

text \<open>
  \<open>items.length > 0 && typeof items[0] === 'object' && items[0] !== null && 'type' in items[0]\<close>
\<close>

definition isGroupedItems :: "jsval list \<Rightarrow> bool" where
  "isGroupedItems its =
     (case its of
        [] \<Rightarrow> False
      | x # _ \<Rightarrow> typeof x = ''object'' \<and> x \<noteq> JNull \<and> has_property ''type'' x)"

text \<open>
  Modelled from the spec: the hook \<open>useDropdown\<close> is not part of these sources. It
  supplies the open/closed state, a boolean, and \<open>setIsOpen\<close>, which stores its argument
  there. The state also records the calls made to the caller's \<open>onSelect\<close>, in order.
\<close>

record DropdownState =
  isOpen :: bool
  onSelect_calls :: "jsval list"

definition setIsOpen :: "bool \<Rightarrow> DropdownState \<Rightarrow> DropdownState" where
  "setIsOpen b st = st\<lparr>isOpen := b\<rparr>"

definition onSelect :: "jsval \<Rightarrow> DropdownState \<Rightarrow> DropdownState" where
  "onSelect item st = st\<lparr>onSelect_calls := onSelect_calls st @ [item]\<rparr>"

text \<open>
  The rendered rows. A header row has its key, its label and the class its index adds
  to \<open>border-t\<close>. A \<open>SelectItem\<close> has its key, \<open>isSelected\<close>, the value its \<open>onSelect\<close>
  closure holds, its class and its child.
\<close>

datatype 'n ItemChild = Rendered 'n | Span string string

datatype 'n Row =
    Header string jsval string
  | SelectItem string bool jsval string "'n ItemChild"

text \<open>The body shared by both branches: \<open>d\<close> is \<open>item\<close> or \<open>item.data\<close>.\<close>

definition select_item :: "'n DropdownProps \<Rightarrow> jsval \<Rightarrow> string \<Rightarrow> 'n Row" where
  "select_item props d class_default =
     (let isSelected = (getItemKey props d = getItemKey props (value props))
      in SelectItem (getItemKey props d) isSelected d
           (case itemClassName props of
              None \<Rightarrow> class_default
            | Some c \<Rightarrow> if c = [] then class_default else c)
           (case renderItem props of
              Some r \<Rightarrow> Rendered (r d isSelected)
            | None \<Rightarrow>
                Span (if isSelected
                      then ''text-xs font-medium text-text-primary dark:text-text-dark-primary''
                      else ''text-xs font-medium text-text-primary dark:text-text-dark-secondary'')
                     (getItemLabel props d)))"

definition render_flat_item :: "'n DropdownProps \<Rightarrow> jsval \<Rightarrow> 'n Row" where
  "render_flat_item props item = select_item props item ''flex items-center gap-2.5''"

definition render_grouped_item :: "'n DropdownProps \<Rightarrow> jsval \<Rightarrow> nat \<Rightarrow> js_error + 'n Row" where
  "render_grouped_item props item index =
     (case get_property item ''type'' of
        Inl e \<Rightarrow> Inl e
      | Inr t \<Rightarrow>
          if t = JStr ''header'' then
            (case get_property item ''label'' of
               Inl e \<Rightarrow> Inl e
             | Inr l \<Rightarrow>
                 Inr (Header (''header-'' @ to_string l) l
                        (if index = 0 then ''border-t-0'' else ''mt-1'')))
          else
            (case get_property item ''data'' of
               Inl e \<Rightarrow> Inl e
             | Inr d \<Rightarrow> Inr (select_item props d ''flex items-center gap-2.5 pl-3'')))"

text \<open>\<open>items.map((item, index) => ...)\<close> where the callback may throw.\<close>

fun map_indexed :: "('a \<Rightarrow> nat \<Rightarrow> 'e + 'b) \<Rightarrow> nat \<Rightarrow> 'a list \<Rightarrow> 'e + 'b list" where
  "map_indexed f i [] = Inr []"
| "map_indexed f i (x # xs) =
     (case f x i of
        Inl e \<Rightarrow> Inl e
      | Inr y \<Rightarrow>
          (case map_indexed f (Suc i) xs of
             Inl e \<Rightarrow> Inl e
           | Inr ys \<Rightarrow> Inr (y # ys)))"

definition render_items :: "'n DropdownProps \<Rightarrow> js_error + 'n Row list" where
  "render_items props =
     (if isGroupedItems (items props)
      then map_indexed (render_grouped_item props) 0 (items props)
      else Inr (map (render_flat_item props) (items props)))"

text \<open>
  The component: the trigger button (its label, \<open>disabled\<close>) and, under
  \<open>isOpen && !disabled\<close>, the list.
\<close>

record 'n DropdownView =
  trigger_label :: string
  trigger_disabled :: bool
  list :: "'n Row list option"

definition DropdownInner :: "'n DropdownProps \<Rightarrow> DropdownState \<Rightarrow> js_error + 'n DropdownView" where
  "DropdownInner props st =
     (let label = (case getItemShortLabel props of
                     Some f \<Rightarrow> f (value props)
                   | None \<Rightarrow> getItemLabel props (value props))
      in if isOpen st \<and> \<not> disabled props then
           (case render_items props of
              Inl e \<Rightarrow> Inl e
            | Inr rows \<Rightarrow>
                Inr \<lparr>trigger_label = label, trigger_disabled = disabled props, list = Some rows\<rparr>)
         else Inr \<lparr>trigger_label = label, trigger_disabled = disabled props, list = None\<rparr>)"

text \<open>The trigger's \<open>onClick\<close>: \<open>!disabled && setIsOpen(!isOpen)\<close>.\<close>

definition trigger_onClick :: "'n DropdownProps \<Rightarrow> DropdownState \<Rightarrow> DropdownState" where
  "trigger_onClick props st = (if \<not> disabled props then setIsOpen (\<not> isOpen st) st else st)"

text \<open>
  A row's \<open>onSelect\<close>: \<open>onSelect(item); setIsOpen(false)\<close> with the value the closure
  holds. A header row has no handler.
\<close>

fun row_onSelect :: "'n Row \<Rightarrow> DropdownState \<Rightarrow> DropdownState" where
  "row_onSelect (SelectItem k s d c ch) st = setIsOpen False (onSelect d st)"
| "row_onSelect (Header k l c) st = st"

fun is_header :: "'n Row \<Rightarrow> bool" where
  "is_header (Header k l c) = True"
| "is_header (SelectItem k s d c ch) = False"

fun row_key :: "'n Row \<Rightarrow> string" where
  "row_key (Header k l c) = k"
| "row_key (SelectItem k s d c ch) = k"

fun isSelected :: "'n Row \<Rightarrow> bool" where
  "isSelected (SelectItem k s d c ch) = s"
| "isSelected (Header k l c) = False"

fun row_item :: "'n Row \<Rightarrow> jsval option" where
  "row_item (SelectItem k s d c ch) = Some d"
| "row_item (Header k l c) = None"

text \<open>A header row always carries \<open>border-t\<close>; \<open>border-t-0\<close> removes the border again.\<close>

fun top_border :: "'n Row \<Rightarrow> bool" where
  "top_border (Header k l c) = (c \<noteq> ''border-t-0'')"
| "top_border (SelectItem k s d c ch) = False"

section \<open>ToolPermissionModal\<close>

text \<open>
  \<open>PermissionRequest\<close> is declared in \<open>@/types\<close>; the component reads \<open>tool_name\<close> and
  \<open>tool_input\<close>, which may be missing.
\<close>

record PermissionRequest =
  tool_name :: string
  tool_input :: "(string \<times> jsval) list option"

record ToolPermissionModalProps =
  request :: "PermissionRequest option"
  isLoading :: bool

text \<open>The calls made to the caller's \<open>onApprove\<close> and \<open>onReject\<close>, in order.\<close>

datatype Callback = OnApprove | OnReject "string option"

text \<open>
  A mounted instance: its current props, its two \<open>useState\<close> cells and the calls it has
  made. Both hooks run before the \<open>if (!request) return null\<close>, so the cells exist
  whether or not a request is present.
\<close>

record Modal =
  cur_props :: ToolPermissionModalProps
  showRejectInput :: bool
  alternativeInstruction :: string
  calls :: "Callback list"

definition mount :: "ToolPermissionModalProps \<Rightarrow> Modal" where
  "mount p = \<lparr>cur_props = p, showRejectInput = False, alternativeInstruction = [], calls = []\<rparr>"

definition setShowRejectInput :: "bool \<Rightarrow> Modal \<Rightarrow> Modal" where
  "setShowRejectInput b m = m\<lparr>showRejectInput := b\<rparr>"

definition setAlternativeInstruction :: "string \<Rightarrow> Modal \<Rightarrow> Modal" where
  "setAlternativeInstruction s m = m\<lparr>alternativeInstruction := s\<rparr>"

definition onReject :: "string option \<Rightarrow> Modal \<Rightarrow> Modal" where
  "onReject a m = m\<lparr>calls := calls m @ [OnReject a]\<rparr>"

definition onApprove :: "Modal \<Rightarrow> Modal" where
  "onApprove m = m\<lparr>calls := calls m @ [OnApprove]\<rparr>"

text \<open>A string is truthy when it is not empty.\<close>

definition handleReject :: "Modal \<Rightarrow> Modal" where
  "handleReject m =
     (if showRejectInput m \<and> trim (alternativeInstruction m) \<noteq> [] then
        setShowRejectInput False
          (setAlternativeInstruction []
            (onReject (Some (trim (alternativeInstruction m))) m))
      else setShowRejectInput True m)"

definition handleJustReject :: "Modal \<Rightarrow> Modal" where
  "handleJustReject m =
     setAlternativeInstruction [] (setShowRejectInput False (onReject None m))"

text \<open>
  The rendered dialog: the tool name, whether "No parameters" is shown, the textarea
  (present under \<open>showRejectInput\<close>) and the two buttons of the footer, each with its
  caption, its \<open>onClick\<close> and its \<open>disabled\<close>. The formatted parameter values are left out.
\<close>

datatype Handler = HandleJustReject | HandleReject | OnApproveProp

record ButtonView =
  caption :: string
  onClick :: Handler
  button_disabled :: bool

record TextareaView =
  textarea_value :: string
  textarea_disabled :: bool

record ModalView =
  tool :: string
  no_parameters :: bool
  textarea :: "TextareaView option"
  buttons :: "ButtonView list"

definition ToolPermissionModal :: "Modal \<Rightarrow> ModalView option" where
  "ToolPermissionModal m =
     (case request (cur_props m) of
        None \<Rightarrow> None
      | Some r \<Rightarrow>
          Some \<lparr>tool = tool_name r,
                no_parameters = (case tool_input r of None \<Rightarrow> True | Some kvs \<Rightarrow> length kvs = 0),
                textarea =
                  (if showRejectInput m
                   then Some \<lparr>textarea_value = alternativeInstruction m,
                              textarea_disabled = isLoading (cur_props m)\<rparr>
                   else None),
                buttons =
                  (if showRejectInput m then
                     [\<lparr>caption = ''Just Reject'', onClick = HandleJustReject,
                       button_disabled = isLoading (cur_props m)\<rparr>,
                      \<lparr>caption = ''Send Instructions'', onClick = HandleReject,
                       button_disabled =
                         (isLoading (cur_props m) \<or> trim (alternativeInstruction m) = [])\<rparr>]
                   else
                     [\<lparr>caption = ''Reject'', onClick = HandleReject,
                       button_disabled = isLoading (cur_props m)\<rparr>,
                      \<lparr>caption = ''Approve'', onClick = OnApproveProp,
                       button_disabled = isLoading (cur_props m)\<rparr>])\<rparr>)"

fun run_handler :: "Handler \<Rightarrow> Modal \<Rightarrow> Modal" where
  "run_handler HandleJustReject m = handleJustReject m"
| "run_handler HandleReject m = handleReject m"
| "run_handler OnApproveProp m = onApprove m"

text \<open>
  Modelled from the spec: the \<open>Button\<close> primitive of \<open>@/components/ui\<close> and the
  \<open>textarea\<close> element are not part of these sources. As the spec has it, the disabled
  state suppresses all actions: a click on a disabled button and input into a disabled
  textarea reach no handler. A control that is not rendered receives no event. The
  component declares no effect: a re-render with new props replaces the props and runs
  nothing else, and the two state cells keep their values.
\<close>

datatype Event = Click string | Change string | Rerender ToolPermissionModalProps

fun step :: "Event \<Rightarrow> Modal \<Rightarrow> Modal" where
  "step (Rerender p) m = m\<lparr>cur_props := p\<rparr>"
| "step (Click c) m =
     (case ToolPermissionModal m of
        None \<Rightarrow> m
      | Some v \<Rightarrow>
          (case find (\<lambda>b. caption b = c) (buttons v) of
             None \<Rightarrow> m
           | Some b \<Rightarrow> if button_disabled b then m else run_handler (onClick b) m))"
| "step (Change s) m =
     (case ToolPermissionModal m of
        None \<Rightarrow> m
      | Some v \<Rightarrow>
          (case textarea v of
             None \<Rightarrow> m
           | Some t \<Rightarrow> if textarea_disabled t then m else setAlternativeInstruction s m))"

definition run :: "Event list \<Rightarrow> Modal \<Rightarrow> Modal" where
  "run es m = fold step es m"

definition approvals :: "Modal \<Rightarrow> nat" where
  "approvals m = length (filter (\<lambda>c. c = OnApprove) (calls m))"

text \<open>
  The events that come from the user, and the events after which \<open>isLoading\<close> is still
  true when it was true before.
\<close>

fun user_event :: "Event \<Rightarrow> bool" where
  "user_event (Rerender p) = False"
| "user_event (Click c) = True"
| "user_event (Change s) = True"

fun stays_loading :: "Event \<Rightarrow> bool" where
  "stays_loading (Rerender p) = isLoading p"
| "stays_loading (Click c) = True"
| "stays_loading (Change s) = True"

text \<open>
  An element of the collection that stands for an item with the derived key of the
  current value: in flat mode the element's own key is compared, in grouped mode the
  element must not be a header and the key of its \<open>data\<close> is compared.
\<close>

definition has_current_key :: "'n DropdownProps \<Rightarrow> jsval \<Rightarrow> bool" where
  "has_current_key props item =
     (if isGroupedItems (items props) then
        (case get_property item ''type'' of
           Inl e \<Rightarrow> False
         | Inr t \<Rightarrow>
             t \<noteq> JStr ''header'' \<and>
             (case get_property item ''data'' of
                Inl e \<Rightarrow> False
              | Inr d \<Rightarrow> getItemKey props d = getItemKey props (value props)))
      else getItemKey props item = getItemKey props (value props))"

text \<open>How many rows of an open list are marked selected, and the header rows of a list.\<close>

definition selected_count :: "'n DropdownView \<Rightarrow> nat" where
  "selected_count v = (case list v of None \<Rightarrow> 0 | Some rows \<Rightarrow> length (filter isSelected rows))"

definition header_rows :: "'n Row list \<Rightarrow> 'n Row list" where
  "header_rows rows = filter is_header rows"

section \<open>Example inputs\<close>

text \<open>
  Four dropdowns over string items, keyed and labelled by the string itself: a flat
  list, the grouped list of the spec's scenario (a header "Recent" followed by the items
  A and B, current value A), a grouped list that begins with an item, and a flat list
  that does not contain the current value.
\<close>

definition string_dropdown :: "jsval \<Rightarrow> jsval list \<Rightarrow> unit DropdownProps" where
  "string_dropdown v its =
     \<lparr>value = v, items = its, getItemKey = to_string, getItemLabel = to_string,
      getItemShortLabel = None, renderItem = None, itemClassName = None, disabled = False\<rparr>"

definition header_item :: "string \<Rightarrow> jsval" where
  "header_item l = JObj [(''type'', JStr ''header''), (''label'', JStr l)]"

definition data_item :: "jsval \<Rightarrow> jsval" where
  "data_item d = JObj [(''type'', JStr ''item''), (''data'', d)]"

definition flat_example :: "unit DropdownProps" where
  "flat_example = string_dropdown (JStr ''b'') [JStr ''a'', JStr ''b'']"

definition grouped_example :: "unit DropdownProps" where
  "grouped_example =
     string_dropdown (JStr ''A'')
       [header_item ''Recent'', data_item (JStr ''A''), data_item (JStr ''B'')]"

definition item_first_example :: "unit DropdownProps" where
  "item_first_example =
     string_dropdown (JStr ''A'') [data_item (JStr ''A''), header_item ''More'', data_item (JStr ''B'')]"

definition stale_example :: "unit DropdownProps" where
  "stale_example = string_dropdown (JStr ''c'') [JStr ''a'', JStr ''b'']"

text \<open>The rows these inputs are rendered to.\<close>

definition flat_rows :: "unit Row list" where
  "flat_rows =
     [SelectItem ''a'' False (JStr ''a'') ''flex items-center gap-2.5''
        (Span ''text-xs font-medium text-text-primary dark:text-text-dark-secondary'' ''a''),
      SelectItem ''b'' True (JStr ''b'') ''flex items-center gap-2.5''
        (Span ''text-xs font-medium text-text-primary dark:text-text-dark-primary'' ''b'')]"

definition grouped_rows :: "unit Row list" where
  "grouped_rows =
     [Header ''header-Recent'' (JStr ''Recent'') ''border-t-0'',
      SelectItem ''A'' True (JStr ''A'') ''flex items-center gap-2.5 pl-3''
        (Span ''text-xs font-medium text-text-primary dark:text-text-dark-primary'' ''A''),
      SelectItem ''B'' False (JStr ''B'') ''flex items-center gap-2.5 pl-3''
        (Span ''text-xs font-medium text-text-primary dark:text-text-dark-secondary'' ''B'')]"

definition item_first_rows :: "unit Row list" where
  "item_first_rows =
     [SelectItem ''A'' True (JStr ''A'') ''flex items-center gap-2.5 pl-3''
        (Span ''text-xs font-medium text-text-primary dark:text-text-dark-primary'' ''A''),
      Header ''header-More'' (JStr ''More'') ''mt-1'',
      SelectItem ''B'' False (JStr ''B'') ''flex items-center gap-2.5 pl-3''
        (Span ''text-xs font-medium text-text-primary dark:text-text-dark-secondary'' ''B'')]"

definition stale_rows :: "unit Row list" where
  "stale_rows =
     [SelectItem ''a'' False (JStr ''a'') ''flex items-center gap-2.5''
        (Span ''text-xs font-medium text-text-primary dark:text-text-dark-secondary'' ''a''),
      SelectItem ''b'' False (JStr ''b'') ''flex items-center gap-2.5''
        (Span ''text-xs font-medium text-text-primary dark:text-text-dark-secondary'' ''b'')]"

definition open_dropdown :: DropdownState where
  "open_dropdown = \<lparr>isOpen = True, onSelect_calls = []\<rparr>"

text \<open>
  A request for the tool \<open>Bash\<close>; props that show it, idle and loading; and a dialog in
  which the user has pressed Reject and typed a space followed by "no".
\<close>

definition bash_request :: PermissionRequest where
  "bash_request = \<lparr>tool_name = ''Bash'', tool_input = Some [(''command'', JStr ''ls'')]\<rparr>"

definition idle_props :: ToolPermissionModalProps where
  "idle_props = \<lparr>request = Some bash_request, isLoading = False\<rparr>"

definition busy_props :: ToolPermissionModalProps where
  "busy_props = \<lparr>request = Some bash_request, isLoading = True\<rparr>"

definition typing_modal :: Modal where
  "typing_modal = run [Click ''Reject'', Change '' no''] (mount idle_props)"

section \<open>Properties of WebPreview\<close>

lemma find_port_Some:
  assumes "i < length ports" "Some (port (ports ! i)) = sel"
    and "\<forall>j<i. Some (port (ports ! j)) \<noteq> sel"
  shows "find (\<lambda>p. Some (port p) = sel) ports = Some (ports ! i)"
  using assms by (auto simp: find_Some_iff)

lemma find_port_None:
  assumes "\<forall>p \<in> set ports. Some (port p) \<noteq> sel"
  shows "find (\<lambda>p. Some (port p) = sel) ports = None"
  using assms by (auto simp: find_None_iff)

text \<open>
  C1. With an empty port list the selected port is null. With a non-empty list it is the
  (first) port whose number is the stored id; when no port has that number, and in
  particular when nothing has been stored, it is the first port of the list. The
  Panel is handed exactly this port.
\<close>

theorem selectedPort_by_id_or_first:
  "selectedPort [] sel = None
   \<and> (\<forall>i < length ports.
        Some (port (ports ! i)) = sel \<and> (\<forall>j<i. Some (port (ports ! j)) \<noteq> sel)
        \<longrightarrow> selectedPort ports sel = Some (ports ! i))
   \<and> (ports \<noteq> [] \<and> (\<forall>p \<in> set ports. Some (port p) \<noteq> sel)
        \<longrightarrow> selectedPort ports sel = Some (hd ports))
   \<and> (ports \<noteq> [] \<longrightarrow> selectedPort ports None = Some (hd ports))
   \<and> (\<not> no_sandbox props \<and> ports \<noteq> [] \<longrightarrow>
        (\<exists>u h r. WebPreview props \<lparr>data = Some ports, loading = l\<rparr> st
                 = Panel u ports (selectedPort ports (selectedPortId st)) h r))"
proof (intro conjI allI impI)
  show "selectedPort [] sel = None"
    by (simp add: selectedPort_def)
next
  fix i
  assume "i < length ports"
    and "Some (port (ports ! i)) = sel \<and> (\<forall>j<i. Some (port (ports ! j)) \<noteq> sel)"
  then have "find (\<lambda>p. Some (port p) = sel) ports = Some (ports ! i)"
    using find_port_Some by blast
  moreover have "ports \<noteq> []"
    using \<open>i < length ports\<close> by auto
  ultimately show "selectedPort ports sel = Some (ports ! i)"
    by (cases ports) (simp_all add: selectedPort_def)
next
  assume "ports \<noteq> [] \<and> (\<forall>p \<in> set ports. Some (port p) \<noteq> sel)"
  then have "find (\<lambda>p. Some (port p) = sel) ports = None" and "ports \<noteq> []"
    using find_port_None by blast+
  then show "selectedPort ports sel = Some (hd ports)"
    by (cases ports) (simp_all add: selectedPort_def)
next
  assume "ports \<noteq> []"
  moreover have "find (\<lambda>p. Some (port p) = None) ports = None"
    by (rule find_port_None) simp
  ultimately show "selectedPort ports None = Some (hd ports)"
    by (cases ports) (simp_all add: selectedPort_def)
next
  assume "\<not> no_sandbox props \<and> ports \<noteq> []"
  then show "\<exists>u h r. WebPreview props \<lparr>data = Some ports, loading = l\<rparr> st
                 = Panel u ports (selectedPort ports (selectedPortId st)) h r"
    by (simp add: WebPreview_def ports_of_def Let_def)
qed

theorem selectedPort_by_id_or_first_witness:
  "selectedPort [\<lparr>port = 3000, previewUrl = ''a''\<rparr>, \<lparr>port = 8080, previewUrl = ''b''\<rparr>] (Some 8080)
     = Some \<lparr>port = 8080, previewUrl = ''b''\<rparr>
   \<and> selectedPort [\<lparr>port = 3000, previewUrl = ''a''\<rparr>, \<lparr>port = 8080, previewUrl = ''b''\<rparr>] (Some 5173)
     = Some \<lparr>port = 3000, previewUrl = ''a''\<rparr>
   \<and> selectedPort [\<lparr>port = 3000, previewUrl = ''a''\<rparr>, \<lparr>port = 8080, previewUrl = ''b''\<rparr>] None
     = Some \<lparr>port = 3000, previewUrl = ''a''\<rparr>"
proof -
  let ?ps = "[\<lparr>port = 3000, previewUrl = ''a''\<rparr>, \<lparr>port = 8080, previewUrl = ''b''\<rparr>]"
  have a: "(1::nat) < length ?ps" by simp
  have b: "Some (port (?ps ! 1)) = Some 8080 \<and> (\<forall>j<1. Some (port (?ps ! j)) \<noteq> Some 8080)"
    by simp
  have c: "?ps \<noteq> [] \<and> (\<forall>p \<in> set ?ps. Some (port p) \<noteq> Some 5173)" by simp
  have d: "?ps \<noteq> []" by simp
  from selectedPort_by_id_or_first [of "Some 8080" ?ps] a b
  have "selectedPort ?ps (Some 8080) = Some (?ps ! 1)" by blast
  moreover from selectedPort_by_id_or_first [of "Some 5173" ?ps] c
  have "selectedPort ?ps (Some 5173) = Some (hd ?ps)" by blast
  moreover from selectedPort_by_id_or_first [of "Some 5173" ?ps] d
  have "selectedPort ?ps None = Some (hd ?ps)" by blast
  ultimately show ?thesis by simp
qed

text \<open>
  C9. \<open>setSelectedPort\<close> called with a port whose number is 0 stores null, no call ever
  stores 0, and with null stored the selection shown for a non-empty list is its first
  port, wherever the port numbered 0 stands in the list.
\<close>

theorem setSelectedPort_zero_is_null:
  assumes "port p = 0"
  shows "selectedPortId (setSelectedPort (Some p) st) = None
         \<and> selectedPortId (setSelectedPort x st) \<noteq> Some 0
         \<and> (ports \<noteq> [] \<longrightarrow>
              selectedPort ports (selectedPortId (setSelectedPort (Some p) st)) = Some (hd ports))"
proof -
  have 1: "selectedPortId (setSelectedPort (Some p) st) = None"
    using assms by (simp add: setSelectedPort_def)
  have 2: "selectedPortId (setSelectedPort x st) \<noteq> Some 0"
    by (cases x) (simp_all add: setSelectedPort_def)
  have 3: "selectedPort ports None = Some (hd ports)" if "ports \<noteq> []"
  proof -
    have "find (\<lambda>q. Some (port q) = None) ports = None"
      by (rule find_port_None) simp
    with that show ?thesis
      by (cases ports) (simp_all add: selectedPort_def)
  qed
  from 1 2 3 show ?thesis by simp
qed

theorem setSelectedPort_zero_is_null_witness:
  "selectedPortId (setSelectedPort (Some \<lparr>port = 0, previewUrl = ''z''\<rparr>) initialWebPreviewState) = None
   \<and> selectedPort [\<lparr>port = 3000, previewUrl = ''a''\<rparr>, \<lparr>port = 0, previewUrl = ''z''\<rparr>]
        (selectedPortId (setSelectedPort (Some \<lparr>port = 0, previewUrl = ''z''\<rparr>) initialWebPreviewState))
     = Some \<lparr>port = 3000, previewUrl = ''a''\<rparr>"
proof -
  have h: "port \<lparr>port = 0, previewUrl = ''z''\<rparr> = 0" by simp
  have ne: "[\<lparr>port = 3000, previewUrl = ''a''\<rparr>, \<lparr>port = 0, previewUrl = ''z''\<rparr>] \<noteq> []"
    by simp
  have hd: "hd [\<lparr>port = 3000, previewUrl = ''a''\<rparr>, \<lparr>port = 0, previewUrl = ''z''\<rparr>]
              = \<lparr>port = 3000, previewUrl = ''a''\<rparr>"
    by simp
  from setSelectedPort_zero_is_null [OF h, of initialWebPreviewState None
        "[\<lparr>port = 3000, previewUrl = ''a''\<rparr>, \<lparr>port = 0, previewUrl = ''z''\<rparr>]"] ne
  show ?thesis unfolding hd by blast
qed

text \<open>
  C7, as the code has it. WebPreview renders a Refresh button of its own exactly in the
  empty state (a sandbox is connected and the port list is empty). With no sandbox the
  view holds no refresh callback at all. With ports available there is no such button,
  but the same \<open>fetchPorts\<close> callback is handed to the Panel as \<open>onRefreshPorts\<close>.
\<close>

theorem own_refresh_button_iff_empty_state:
  "(refresh_button (WebPreview props q st) \<longleftrightarrow> empty_state props q)
   \<and> (no_sandbox props \<longrightarrow> \<not> refresh_wired (WebPreview props q st))
   \<and> (\<not> no_sandbox props \<and> ports_of q \<noteq> [] \<longrightarrow>
        (\<exists>u s h. WebPreview props q st = Panel u (ports_of q) s h FetchPorts))"
  by (simp add: WebPreview_def empty_state_def Let_def)

theorem own_refresh_button_iff_empty_state_witness:
  "refresh_button (WebPreview \<lparr>sandboxId = Some ''sb'', isActive = True\<rparr>
                     \<lparr>data = None, loading = False\<rparr> initialWebPreviewState)
   \<and> \<not> refresh_wired (WebPreview \<lparr>sandboxId = None, isActive = True\<rparr>
                     \<lparr>data = Some [\<lparr>port = 3000, previewUrl = ''u''\<rparr>], loading = False\<rparr>
                     initialWebPreviewState)"
proof -
  have a: "empty_state \<lparr>sandboxId = Some ''sb'', isActive = True\<rparr> \<lparr>data = None, loading = False\<rparr>"
    by (simp add: empty_state_def no_sandbox_def ports_of_def)
  have b: "no_sandbox \<lparr>sandboxId = None, isActive = True\<rparr>"
    by (simp add: no_sandbox_def)
  from own_refresh_button_iff_empty_state
         [of "\<lparr>sandboxId = Some ''sb'', isActive = True\<rparr>" "\<lparr>data = None, loading = False\<rparr>"
             initialWebPreviewState] a
  have "refresh_button (WebPreview \<lparr>sandboxId = Some ''sb'', isActive = True\<rparr>
                     \<lparr>data = None, loading = False\<rparr> initialWebPreviewState)"
    by blast
  moreover from own_refresh_button_iff_empty_state
         [of "\<lparr>sandboxId = None, isActive = True\<rparr>"
             "\<lparr>data = Some [\<lparr>port = 3000, previewUrl = ''u''\<rparr>], loading = False\<rparr>"
             initialWebPreviewState] b
  have "\<not> refresh_wired (WebPreview \<lparr>sandboxId = None, isActive = True\<rparr>
                     \<lparr>data = Some [\<lparr>port = 3000, previewUrl = ''u''\<rparr>], loading = False\<rparr>
                     initialWebPreviewState)"
    by blast
  ultimately show ?thesis by blast
qed

text \<open>
  C7, as the claim states it, fails: with a sandbox connected and one open port the view
  is the Panel, not the empty state, and it carries the refresh callback.
\<close>

theorem refresh_outside_empty_state_counterexample:
  "refresh_wired (WebPreview \<lparr>sandboxId = Some ''sb'', isActive = True\<rparr>
                    \<lparr>data = Some [\<lparr>port = 3000, previewUrl = ''u''\<rparr>], loading = False\<rparr>
                    initialWebPreviewState)
   \<and> \<not> empty_state \<lparr>sandboxId = Some ''sb'', isActive = True\<rparr>
                      \<lparr>data = Some [\<lparr>port = 3000, previewUrl = ''u''\<rparr>], loading = False\<rparr>"
  by (simp add: WebPreview_def empty_state_def no_sandbox_def ports_of_def Let_def)

section \<open>Properties of Dropdown\<close>

lemma map_indexed_length:
  "map_indexed f i xs = Inr ys \<Longrightarrow> length ys = length xs"
  by (induction xs arbitrary: i ys) (auto split: sum.splits)

lemma map_indexed_nth:
  "map_indexed f i xs = Inr ys \<Longrightarrow> j < length xs \<Longrightarrow> f (xs ! j) (i + j) = Inr (ys ! j)"
proof (induction xs arbitrary: i ys j)
  case Nil
  then show ?case by simp
next
  case (Cons x xs)
  from Cons.prems(1) obtain y zs where
    fx: "f x i = Inr y" and rest: "map_indexed f (Suc i) xs = Inr zs" and ys: "ys = y # zs"
    by (auto split: sum.splits)
  show ?case
  proof (cases j)
    case 0
    with fx ys show ?thesis by simp
  next
    case (Suc k)
    with Cons.prems(2) have "k < length xs" by simp
    from Cons.IH [OF rest this] Suc ys show ?thesis by simp
  qed
qed

lemma select_item_row [simp]:
  "\<not> is_header (select_item props d c)"
  "row_item (select_item props d c) = Some d"
  "row_key (select_item props d c) = getItemKey props d"
  "isSelected (select_item props d c) = (getItemKey props d = getItemKey props (value props))"
  "\<not> top_border (select_item props d c)"
  "row_onSelect (select_item props d c) st = setIsOpen False (onSelect d st)"
  by (simp_all add: select_item_def Let_def)

lemma render_grouped_item_cases:
  assumes "render_grouped_item props item index = Inr r"
  shows "(get_property item ''type'' = Inr (JStr ''header'') \<and> is_header r
            \<and> \<not> isSelected r \<and> (top_border r \<longleftrightarrow> index \<noteq> 0))
         \<or> (get_property item ''type'' \<noteq> Inr (JStr ''header'')
            \<and> (\<exists>d. get_property item ''data'' = Inr d
                   \<and> r = select_item props d ''flex items-center gap-2.5 pl-3''))"
  using assms
  by (auto simp: render_grouped_item_def split: sum.splits if_splits)

lemma has_property_iff:
  "typeof x = ''object'' \<and> x \<noteq> JNull \<and> has_property k x
     \<longleftrightarrow> (\<exists>fs. x = JObj fs \<and> k \<in> fst ` set fs)"
  by (cases x) (auto simp: map_of_eq_None_iff)

text \<open>
  C2. A collection is grouped exactly when it is non-empty and its first element is a
  non-null object with a property \<open>type\<close>. The elements after the first have no part in
  it. A collection that is not grouped is rendered as the flat list: one \<open>SelectItem\<close>
  per element, for the element itself, and rendering cannot fail.
\<close>

theorem isGroupedItems_first_element_only:
  "(isGroupedItems its \<longleftrightarrow> its \<noteq> [] \<and> (\<exists>fs. hd its = JObj fs \<and> ''type'' \<in> fst ` set fs))
   \<and> isGroupedItems (x # xs) = isGroupedItems (x # ys)
   \<and> (\<not> isGroupedItems (items props) \<longrightarrow>
        render_items props = Inr (map (render_flat_item props) (items props))
        \<and> map row_item (map (render_flat_item props) (items props)) = map Some (items props))
   \<and> (isGroupedItems (items props) \<longrightarrow>
        render_items props = map_indexed (render_grouped_item props) 0 (items props))"
proof (intro conjI impI)
  show "isGroupedItems its \<longleftrightarrow> its \<noteq> [] \<and> (\<exists>fs. hd its = JObj fs \<and> ''type'' \<in> fst ` set fs)"
  proof (cases its)
    case Nil
    then show ?thesis by (simp add: isGroupedItems_def)
  next
    case (Cons a as)
    then show ?thesis
      using has_property_iff [of a "''type''"] by (simp add: isGroupedItems_def)
  qed
  show "isGroupedItems (x # xs) = isGroupedItems (x # ys)"
    by (simp add: isGroupedItems_def)
  show "render_items props = Inr (map (render_flat_item props) (items props))"
    if "\<not> isGroupedItems (items props)"
    using that by (simp add: render_items_def)
  show "map row_item (map (render_flat_item props) (items props)) = map Some (items props)"
    by (simp add: render_flat_item_def comp_def)
  show "render_items props = map_indexed (render_grouped_item props) 0 (items props)"
    if "isGroupedItems (items props)"
    using that by (simp add: render_items_def)
qed

lemmas item_defs = string_dropdown_def header_item_def data_item_def

lemmas render_defs =
  render_items_def isGroupedItems_def render_grouped_item_def render_flat_item_def
  select_item_def Let_def

lemma flat_example_rows: "render_items flat_example = Inr flat_rows"
  by (simp add: item_defs flat_example_def render_defs flat_rows_def)

lemma grouped_example_rows: "render_items grouped_example = Inr grouped_rows"
  by (simp add: item_defs grouped_example_def render_defs grouped_rows_def)

lemma item_first_example_rows: "render_items item_first_example = Inr item_first_rows"
  by (simp add: item_defs item_first_example_def render_defs item_first_rows_def)

lemma stale_example_rows: "render_items stale_example = Inr stale_rows"
  by (simp add: item_defs stale_example_def render_defs stale_rows_def)

lemma grouped_example_grouped: "isGroupedItems (items grouped_example)"
  by (simp add: item_defs grouped_example_def isGroupedItems_def)

lemma flat_example_flat: "\<not> isGroupedItems (items flat_example)"
  by (simp add: item_defs flat_example_def isGroupedItems_def)

theorem isGroupedItems_first_element_only_witness:
  "isGroupedItems (items grouped_example)
   \<and> \<not> isGroupedItems (items flat_example)
   \<and> render_items flat_example = Inr (map (render_flat_item flat_example) (items flat_example))"
proof -
  have g: "items grouped_example \<noteq> []
           \<and> (\<exists>fs. hd (items grouped_example) = JObj fs \<and> ''type'' \<in> fst ` set fs)"
    by (simp add: item_defs grouped_example_def)
  have f: "\<not> (\<exists>fs. hd (items flat_example) = JObj fs \<and> ''type'' \<in> fst ` set fs)"
    by (simp add: item_defs flat_example_def)
  from isGroupedItems_first_element_only [of "items grouped_example"] g
  have 1: "isGroupedItems (items grouped_example)" by blast
  from isGroupedItems_first_element_only [of "items flat_example"] f
  have 2: "\<not> isGroupedItems (items flat_example)" by blast
  from isGroupedItems_first_element_only [of "items flat_example" _ _ _ flat_example] 2
  have 3: "render_items flat_example = Inr (map (render_flat_item flat_example) (items flat_example))"
    by blast
  from 1 2 3 show ?thesis by blast
qed

lemma row_item_onSelect:
  "row_item r = Some d \<Longrightarrow> row_onSelect r st = setIsOpen False (onSelect d st)"
  by (cases r) simp_all

lemma row_item_header: "is_header r \<longleftrightarrow> row_item r = None"
  by (cases r) simp_all

lemma render_items_length:
  assumes "render_items props = Inr rows"
  shows "length rows = length (items props)"
  using assms map_indexed_length [of "render_grouped_item props" 0 "items props" rows]
  by (auto simp: render_items_def split: if_splits)

lemma render_items_flat_nth:
  assumes "render_items props = Inr rows" and "\<not> isGroupedItems (items props)"
    and "i < length (items props)"
  shows "rows ! i = select_item props (items props ! i) ''flex items-center gap-2.5''"
  using assms by (auto simp: render_items_def render_flat_item_def)

lemma render_items_grouped_nth:
  assumes "render_items props = Inr rows" and "isGroupedItems (items props)"
    and "i < length (items props)"
  shows "render_grouped_item props (items props ! i) i = Inr (rows ! i)"
  using assms map_indexed_nth [of "render_grouped_item props" 0 "items props" rows i]
  by (simp add: render_items_def)

text \<open>
  C4. There is one row per element of the collection. In flat mode every row is a
  \<open>SelectItem\<close> for the element itself; in grouped mode the rows of the elements that
  are not headers are \<open>SelectItem\<close>s for the element's \<open>data\<close>. Triggering the selection
  of such a row adds exactly one call of \<open>onSelect\<close>, with that item, and leaves the
  dropdown closed.
\<close>

theorem selecting_a_row_calls_onSelect_once_and_closes:
  assumes "render_items props = Inr rows" and "i < length (items props)"
  shows "length rows = length (items props)
         \<and> (\<not> isGroupedItems (items props) \<longrightarrow> row_item (rows ! i) = Some (items props ! i))
         \<and> (isGroupedItems (items props) \<longrightarrow>
              (is_header (rows ! i) \<longleftrightarrow> get_property (items props ! i) ''type'' = Inr (JStr ''header''))
              \<and> (\<not> is_header (rows ! i) \<longrightarrow>
                   (\<exists>d. get_property (items props ! i) ''data'' = Inr d \<and> row_item (rows ! i) = Some d)))
         \<and> (\<forall>d. row_item (rows ! i) = Some d \<longrightarrow>
               onSelect_calls (row_onSelect (rows ! i) st) = onSelect_calls st @ [d]
               \<and> \<not> isOpen (row_onSelect (rows ! i) st))"
proof (intro conjI impI allI)
  show "length rows = length (items props)"
    using assms(1) by (rule render_items_length)
next
  assume "\<not> isGroupedItems (items props)"
  with assms show "row_item (rows ! i) = Some (items props ! i)"
    by (simp add: render_items_flat_nth)
next
  assume g: "isGroupedItems (items props)"
  from render_grouped_item_cases [OF render_items_grouped_nth [OF assms(1) g assms(2)]]
  show "is_header (rows ! i) \<longleftrightarrow> get_property (items props ! i) ''type'' = Inr (JStr ''header'')"
    by auto
next
  assume g: "isGroupedItems (items props)" and "\<not> is_header (rows ! i)"
  with render_grouped_item_cases [OF render_items_grouped_nth [OF assms(1) g assms(2)]]
  show "\<exists>d. get_property (items props ! i) ''data'' = Inr d \<and> row_item (rows ! i) = Some d"
    by auto
next
  fix d assume "row_item (rows ! i) = Some d"
  then have "row_onSelect (rows ! i) st = setIsOpen False (onSelect d st)"
    by (rule row_item_onSelect)
  then show "onSelect_calls (row_onSelect (rows ! i) st) = onSelect_calls st @ [d]"
    and "\<not> isOpen (row_onSelect (rows ! i) st)"
    by (simp_all add: setIsOpen_def onSelect_def)
qed

theorem selecting_a_row_calls_onSelect_once_and_closes_witness:
  "render_items grouped_example = Inr grouped_rows
   \<and> 2 < length (items grouped_example)
   \<and> row_item (grouped_rows ! 2) = Some (JStr ''B'')
   \<and> onSelect_calls (row_onSelect (grouped_rows ! 2) open_dropdown) = [JStr ''B'']
   \<and> \<not> isOpen (row_onSelect (grouped_rows ! 2) open_dropdown)"
proof -
  have len: "2 < length (items grouped_example)"
    by (simp add: item_defs grouped_example_def)
  have it: "row_item (grouped_rows ! 2) = Some (JStr ''B'')"
    by (simp add: grouped_rows_def)
  have emp: "onSelect_calls open_dropdown @ [JStr ''B''] = [JStr ''B'']"
    by (simp add: open_dropdown_def)
  from selecting_a_row_calls_onSelect_once_and_closes
         [OF grouped_example_rows len, of open_dropdown] it
  have "onSelect_calls (row_onSelect (grouped_rows ! 2) open_dropdown)
          = onSelect_calls open_dropdown @ [JStr ''B'']
        \<and> \<not> isOpen (row_onSelect (grouped_rows ! 2) open_dropdown)"
    by blast
  with grouped_example_rows len it emp show ?thesis by simp
qed

lemma rendered_row_shape:
  assumes "render_items props = Inr rows" and "r \<in> set rows"
  shows "(is_header r \<and> \<not> isSelected r) \<or> (\<exists>d c. r = select_item props d c)"
proof -
  from assms(2) obtain i where i: "i < length rows" and r: "r = rows ! i"
    by (auto simp: in_set_conv_nth)
  from i render_items_length [OF assms(1)] have i': "i < length (items props)" by simp
  show ?thesis
  proof (cases "isGroupedItems (items props)")
    case True
    from render_grouped_item_cases [OF render_items_grouped_nth [OF assms(1) True i']] r
    show ?thesis by auto
  next
    case False
    from render_items_flat_nth [OF assms(1) False i'] r show ?thesis by auto
  qed
qed

lemma rendered_row_selected:
  assumes "render_items props = Inr rows" and "r \<in> set rows"
  shows "isSelected r \<longleftrightarrow> \<not> is_header r \<and> row_key r = getItemKey props (value props)"
  using rendered_row_shape [OF assms] by auto

lemma rendered_row_key:
  assumes "render_items props = Inr rows" and "r \<in> set rows" and "row_item r = Some d"
  shows "row_key r = getItemKey props d"
  using rendered_row_shape [OF assms(1,2)] assms(3) by (auto simp: row_item_header)

lemma get_property_readable:
  assumes "get_property v k = Inr x"
  shows "\<exists>y. get_property v k' = Inr y"
  using assms by (cases v) simp_all

lemma rendered_row_matches_element:
  assumes "render_items props = Inr rows" and "i < length (items props)"
  shows "isSelected (rows ! i) = has_current_key props (items props ! i)"
proof (cases "isGroupedItems (items props)")
  case True
  let ?x = "items props ! i"
  from render_grouped_item_cases [OF render_items_grouped_nth [OF assms(1) True assms(2)]]
  consider (header) "get_property ?x ''type'' = Inr (JStr ''header'')" "\<not> isSelected (rows ! i)"
    | (item) d where "get_property ?x ''type'' \<noteq> Inr (JStr ''header'')"
        "get_property ?x ''data'' = Inr d"
        "rows ! i = select_item props d ''flex items-center gap-2.5 pl-3''"
    by blast
  then show ?thesis
  proof cases
    case header
    with True show ?thesis by (simp add: has_current_key_def)
  next
    case item
    from get_property_readable [OF item(2), of "''type''"]
    obtain t where t: "get_property ?x ''type'' = Inr t" by blast
    with item(1) have "t \<noteq> JStr ''header''" by simp
    with True t item(2,3) show ?thesis by (simp add: has_current_key_def)
  qed
next
  case False
  from render_items_flat_nth [OF assms(1) False assms(2)] False
  show ?thesis by (simp add: has_current_key_def)
qed

lemma length_filter_pointwise:
  assumes "length xs = length ys" and "\<forall>i<length xs. P (xs ! i) = Q (ys ! i)"
  shows "length (filter P xs) = length (filter Q ys)"
  using assms
proof (induction xs ys rule: list_induct2)
  case Nil
  then show ?case by simp
next
  case (Cons x xs y ys)
  have "0 < length (x # xs)" by simp
  with Cons.prems have "P ((x # xs) ! 0) = Q ((y # ys) ! 0)" by blast
  then have h: "P x = Q y" by simp
  have t: "\<forall>i<length xs. P (xs ! i) = Q (ys ! i)"
  proof (intro allI impI)
    fix i assume "i < length xs"
    then have "Suc i < length (x # xs)" by simp
    with Cons.prems have "P ((x # xs) ! Suc i) = Q ((y # ys) ! Suc i)" by blast
    then show "P (xs ! i) = Q (ys ! i)" by simp
  qed
  from Cons.IH [OF t] h show ?case by simp
qed

text \<open>
  C5, as the code has it. In both modes the row rendered for an element of the
  collection is marked selected exactly when the element is an item whose derived key
  equals the derived key of the current value: in flat mode the key of the element, in
  grouped mode the key of the \<open>data\<close> of an element that is not a header; a header is
  never marked. Nothing but the two keys is compared. So the number of marked rows is
  the number of such elements of the collection, which is one exactly when one item has
  the key, and none when no item has it.
\<close>

theorem selected_rows_are_the_rows_with_the_current_key:
  assumes "render_items props = Inr rows"
  shows "(\<forall>r \<in> set rows. isSelected r \<longleftrightarrow>
             \<not> is_header r \<and> row_key r = getItemKey props (value props))
         \<and> (\<forall>r \<in> set rows. \<forall>d. row_item r = Some d \<longrightarrow> row_key r = getItemKey props d)
         \<and> length (filter isSelected rows)
             = length (filter (\<lambda>r. \<not> is_header r \<and> row_key r = getItemKey props (value props)) rows)
         \<and> (\<not> isGroupedItems (items props) \<longrightarrow>
               length (filter isSelected rows)
                 = length (filter (\<lambda>x. getItemKey props x = getItemKey props (value props))
                             (items props)))
         \<and> length rows = length (items props)
         \<and> (\<forall>i < length (items props).
               (\<not> isGroupedItems (items props) \<longrightarrow>
                  row_item (rows ! i) = Some (items props ! i)
                  \<and> (isSelected (rows ! i) \<longleftrightarrow>
                       getItemKey props (items props ! i) = getItemKey props (value props)))
               \<and> (isGroupedItems (items props) \<longrightarrow>
                    (get_property (items props ! i) ''type'' = Inr (JStr ''header'') \<longrightarrow>
                       \<not> isSelected (rows ! i))
                    \<and> (get_property (items props ! i) ''type'' \<noteq> Inr (JStr ''header'') \<longrightarrow>
                         (\<exists>d. get_property (items props ! i) ''data'' = Inr d
                              \<and> row_item (rows ! i) = Some d
                              \<and> (isSelected (rows ! i) \<longleftrightarrow>
                                   getItemKey props d = getItemKey props (value props)))))
               \<and> (isSelected (rows ! i) \<longleftrightarrow> has_current_key props (items props ! i)))
         \<and> length (filter isSelected rows) = length (filter (has_current_key props) (items props))
         \<and> (length (filter (has_current_key props) (items props)) = 1 \<longrightarrow>
               (\<exists>!i. i < length rows \<and> isSelected (rows ! i)))"
proof -
  have len: "length rows = length (items props)"
    using assms by (rule render_items_length)
  have pt: "\<forall>i<length rows. isSelected (rows ! i) = has_current_key props (items props ! i)"
    using rendered_row_matches_element [OF assms] len by simp
  have cnt: "length (filter isSelected rows) = length (filter (has_current_key props) (items props))"
    using len pt by (rule length_filter_pointwise)
  have c1: "\<forall>r \<in> set rows. isSelected r \<longleftrightarrow>
             \<not> is_header r \<and> row_key r = getItemKey props (value props)"
    using rendered_row_selected [OF assms] by blast
  have c2: "\<forall>r \<in> set rows. \<forall>d. row_item r = Some d \<longrightarrow> row_key r = getItemKey props d"
    using rendered_row_key [OF assms] by blast
  have "filter isSelected rows
          = filter (\<lambda>r. \<not> is_header r \<and> row_key r = getItemKey props (value props)) rows"
    by (rule filter_cong) (simp_all add: rendered_row_selected [OF assms])
  then have c3: "length (filter isSelected rows)
          = length (filter (\<lambda>r. \<not> is_header r \<and> row_key r = getItemKey props (value props)) rows)"
    by simp
  have c4: "length (filter isSelected rows)
          = length (filter (\<lambda>x. getItemKey props x = getItemKey props (value props)) (items props))"
    if "\<not> isGroupedItems (items props)"
  proof -
    have "has_current_key props = (\<lambda>x. getItemKey props x = getItemKey props (value props))"
      using that by (auto simp: has_current_key_def)
    with cnt show ?thesis by simp
  qed
  have c5: "row_item (rows ! i) = Some (items props ! i)
            \<and> (isSelected (rows ! i) \<longleftrightarrow>
                 getItemKey props (items props ! i) = getItemKey props (value props))"
    if "i < length (items props)" and "\<not> isGroupedItems (items props)" for i
    using render_items_flat_nth [OF assms that(2,1)] by simp
  have c6: "(get_property (items props ! i) ''type'' = Inr (JStr ''header'') \<longrightarrow>
                \<not> isSelected (rows ! i))
            \<and> (get_property (items props ! i) ''type'' \<noteq> Inr (JStr ''header'') \<longrightarrow>
                 (\<exists>d. get_property (items props ! i) ''data'' = Inr d
                      \<and> row_item (rows ! i) = Some d
                      \<and> (isSelected (rows ! i) \<longleftrightarrow>
                           getItemKey props d = getItemKey props (value props))))"
    if "i < length (items props)" and "isGroupedItems (items props)" for i
    using render_grouped_item_cases [OF render_items_grouped_nth [OF assms that(2,1)]]
    by auto
  have c7: "isSelected (rows ! i) \<longleftrightarrow> has_current_key props (items props ! i)"
    if "i < length (items props)" for i
    using rendered_row_matches_element [OF assms that] by simp
  have c8: "\<exists>!i. i < length rows \<and> isSelected (rows ! i)"
    if "length (filter (has_current_key props) (items props)) = 1"
  proof -
    from that cnt have one: "length (filter isSelected rows) = 1" by simp
    then show ?thesis
      by (simp add: length_filter_conv_card card_1_singleton_iff)
         (metis (mono_tags, lifting) mem_Collect_eq singletonD singletonI)
  qed
  from c1 c2 c3 c4 len c5 c6 c7 cnt c8 show ?thesis by blast
qed

lemma grouped_example_count:
  "length (filter (has_current_key grouped_example) (items grouped_example)) = 1"
  by (simp add: has_current_key_def isGroupedItems_def item_defs grouped_example_def)

theorem selected_rows_are_the_rows_with_the_current_key_witness:
  "render_items grouped_example = Inr grouped_rows
   \<and> isGroupedItems (items grouped_example)
   \<and> length (filter (has_current_key grouped_example) (items grouped_example)) = 1
   \<and> length (filter isSelected grouped_rows) = 1
   \<and> has_current_key grouped_example (items grouped_example ! 1)
   \<and> isSelected (grouped_rows ! 1)
   \<and> \<not> has_current_key grouped_example (items grouped_example ! 2)
   \<and> \<not> isSelected (grouped_rows ! 2)
   \<and> render_items flat_example = Inr flat_rows
   \<and> \<not> isGroupedItems (items flat_example)
   \<and> length (filter isSelected flat_rows) = 1"
proof -
  have i1: "1 < length (items grouped_example)" and i2: "2 < length (items grouped_example)"
    by (simp_all add: item_defs grouped_example_def)
  have k1: "has_current_key grouped_example (items grouped_example ! 1)"
    and k2: "\<not> has_current_key grouped_example (items grouped_example ! 2)"
    by (simp_all add: has_current_key_def isGroupedItems_def item_defs grouped_example_def)
  note g = selected_rows_are_the_rows_with_the_current_key [OF grouped_example_rows]
  from g grouped_example_count
  have n: "length (filter isSelected grouped_rows) = 1" by simp
  from g i1 k1 have s1: "isSelected (grouped_rows ! 1)" by blast
  from g i2 k2 have s2: "\<not> isSelected (grouped_rows ! 2)" by blast
  have "length (filter (\<lambda>x. getItemKey flat_example x = getItemKey flat_example (value flat_example))
                  (items flat_example)) = 1"
    by (simp add: item_defs flat_example_def)
  with selected_rows_are_the_rows_with_the_current_key [OF flat_example_rows] flat_example_flat
  have f: "length (filter isSelected flat_rows) = 1" by simp
  from grouped_example_rows grouped_example_grouped grouped_example_count n k1 s1 k2 s2
    flat_example_rows flat_example_flat f
  show ?thesis by blast
qed

text \<open>
  C5, as the claim states it, fails: when no item has the key of the current value, the
  open list has no row marked selected.
\<close>

theorem no_row_selected_counterexample:
  "DropdownInner stale_example open_dropdown
     = Inr \<lparr>trigger_label = ''c'', trigger_disabled = False, list = Some stale_rows\<rparr>
   \<and> map isSelected stale_rows = [False, False]
   \<and> selected_count \<lparr>trigger_label = ''c'', trigger_disabled = False, list = Some stale_rows\<rparr> = 0"
proof (intro conjI)
  have "isOpen open_dropdown" and "\<not> disabled stale_example"
    and "getItemShortLabel stale_example = None"
    and "getItemLabel stale_example (value stale_example) = ''c''"
    by (simp_all add: item_defs stale_example_def open_dropdown_def)
  then show "DropdownInner stale_example open_dropdown
     = Inr \<lparr>trigger_label = ''c'', trigger_disabled = False, list = Some stale_rows\<rparr>"
    by (simp add: DropdownInner_def stale_example_rows)
  show "map isSelected stale_rows = [False, False]"
    by (simp add: stale_rows_def)
  then show "selected_count
      \<lparr>trigger_label = ''c'', trigger_disabled = False, list = Some stale_rows\<rparr> = 0"
    by (simp add: selected_count_def stale_rows_def)
qed

text \<open>
  C6, as the code has it. In grouped mode a header row has its top border suppressed
  exactly when it is the first element of the collection (index 0); a header at any
  later index shows the border. So in a collection that begins with a header, the
  header of the first group has no top border and the header of every later group has
  one.
\<close>

theorem header_top_border_iff_not_first_element:
  assumes "isGroupedItems (items props)" and "render_items props = Inr rows"
    and "i < length rows" and "is_header (rows ! i)"
  shows "top_border (rows ! i) \<longleftrightarrow> i \<noteq> 0"
proof -
  from assms(3) render_items_length [OF assms(2)] have "i < length (items props)" by simp
  from render_grouped_item_cases [OF render_items_grouped_nth [OF assms(2,1) this]] assms(4)
  show ?thesis by auto
qed

theorem header_top_border_iff_not_first_element_witness:
  "isGroupedItems (items grouped_example)
   \<and> render_items grouped_example = Inr grouped_rows
   \<and> 0 < length grouped_rows
   \<and> is_header (grouped_rows ! 0)
   \<and> \<not> top_border (grouped_rows ! 0)"
proof -
  have len: "0 < length grouped_rows" and hdr: "is_header (grouped_rows ! 0)"
    by (simp_all add: grouped_rows_def)
  from header_top_border_iff_not_first_element
         [OF grouped_example_grouped grouped_example_rows len hdr]
  have "\<not> top_border (grouped_rows ! 0)" by blast
  with grouped_example_grouped grouped_example_rows len hdr show ?thesis by blast
qed

text \<open>
  C6, as the claim states it, fails: in a grouped collection that begins with an item,
  the first header rendered stands at index 1 and shows its top border.
\<close>

theorem first_header_with_top_border_counterexample:
  "isGroupedItems (items item_first_example)
   \<and> render_items item_first_example = Inr item_first_rows
   \<and> hd (header_rows item_first_rows) = Header ''header-More'' (JStr ''More'') ''mt-1''
   \<and> top_border (hd (header_rows item_first_rows))"
proof (intro conjI)
  show "isGroupedItems (items item_first_example)"
    by (simp add: item_defs item_first_example_def isGroupedItems_def)
  show "render_items item_first_example = Inr item_first_rows"
    by (rule item_first_example_rows)
  show h: "hd (header_rows item_first_rows) = Header ''header-More'' (JStr ''More'') ''mt-1''"
    by (simp add: header_rows_def item_first_rows_def)
  show "top_border (hd (header_rows item_first_rows))"
    unfolding h by simp
qed

section \<open>Properties of ToolPermissionModal\<close>

lemma trim_examples:
  "trim '' no'' = ''no''" "trim ''  '' = []" "trim ''use rg'' = ''use rg''"
  by (simp_all add: trim_def is_whitespace_def)

text \<open>
  C3, as the code has it. \<open>handleReject\<close> with the text field not shown makes no call and
  changes nothing but the reveal flag, which it sets. With the field shown and a text
  that is not empty after trimming, it calls \<open>onReject\<close> exactly once, with the trimmed
  text, and resets the text to the empty string and the reveal flag to false. The
  same holds for a click on the button that carries the handler ("Reject", then "Send
  Instructions") when a request is shown and \<open>isLoading\<close> is false.
\<close>

theorem handleReject_reveals_then_sends_trimmed_text:
  "(\<not> showRejectInput m \<longrightarrow> handleReject m = m\<lparr>showRejectInput := True\<rparr>)
   \<and> (showRejectInput m \<and> trim (alternativeInstruction m) \<noteq> [] \<longrightarrow>
        handleReject m
          = m\<lparr>showRejectInput := False, alternativeInstruction := [],
               calls := calls m @ [OnReject (Some (trim (alternativeInstruction m)))]\<rparr>)
   \<and> (request (cur_props m) \<noteq> None \<and> \<not> isLoading (cur_props m) \<longrightarrow>
        (\<not> showRejectInput m \<longrightarrow> step (Click ''Reject'') m = handleReject m)
        \<and> (showRejectInput m \<and> trim (alternativeInstruction m) \<noteq> [] \<longrightarrow>
              step (Click ''Send Instructions'') m = handleReject m))"
proof (intro conjI impI)
  show "handleReject m = m\<lparr>showRejectInput := True\<rparr>" if "\<not> showRejectInput m"
    using that by (simp add: handleReject_def setShowRejectInput_def)
  show "handleReject m
          = m\<lparr>showRejectInput := False, alternativeInstruction := [],
               calls := calls m @ [OnReject (Some (trim (alternativeInstruction m)))]\<rparr>"
    if "showRejectInput m \<and> trim (alternativeInstruction m) \<noteq> []"
    using that
    by (simp add: handleReject_def setShowRejectInput_def setAlternativeInstruction_def
        onReject_def)
  show "step (Click ''Reject'') m = handleReject m"
    if "request (cur_props m) \<noteq> None \<and> \<not> isLoading (cur_props m)" and "\<not> showRejectInput m"
    using that by (auto simp: ToolPermissionModal_def)
  show "step (Click ''Send Instructions'') m = handleReject m"
    if "request (cur_props m) \<noteq> None \<and> \<not> isLoading (cur_props m)"
      and "showRejectInput m \<and> trim (alternativeInstruction m) \<noteq> []"
    using that by (auto simp: ToolPermissionModal_def)
qed

lemma typing_modal_eq:
  "typing_modal
     = \<lparr>cur_props = idle_props, showRejectInput = True, alternativeInstruction = '' no'',
        calls = []\<rparr>"
  by (simp add: typing_modal_def run_def bash_request_def idle_props_def mount_def ToolPermissionModal_def
      handleReject_def setShowRejectInput_def setAlternativeInstruction_def)

theorem handleReject_reveals_then_sends_trimmed_text_witness:
  "\<not> showRejectInput (mount idle_props)
   \<and> handleReject (mount idle_props) = (mount idle_props)\<lparr>showRejectInput := True\<rparr>
   \<and> showRejectInput typing_modal
   \<and> trim (alternativeInstruction typing_modal) \<noteq> []
   \<and> calls (handleReject typing_modal) = [OnReject (Some ''no'')]
   \<and> alternativeInstruction (handleReject typing_modal) = []
   \<and> \<not> showRejectInput (handleReject typing_modal)"
proof -
  have a: "\<not> showRejectInput (mount idle_props)"
    by (simp add: mount_def)
  have b: "showRejectInput typing_modal \<and> trim (alternativeInstruction typing_modal) \<noteq> []"
    by (simp add: typing_modal_eq trim_examples)
  have c: "calls typing_modal @ [OnReject (Some (trim (alternativeInstruction typing_modal)))]
             = [OnReject (Some ''no'')]"
    by (simp add: typing_modal_eq trim_examples)
  from handleReject_reveals_then_sends_trimmed_text [of "mount idle_props"] a
  have 1: "handleReject (mount idle_props) = (mount idle_props)\<lparr>showRejectInput := True\<rparr>"
    by blast
  from handleReject_reveals_then_sends_trimmed_text [of typing_modal] b
  have 2: "handleReject typing_modal
          = typing_modal\<lparr>showRejectInput := False, alternativeInstruction := [],
               calls := calls typing_modal
                          @ [OnReject (Some (trim (alternativeInstruction typing_modal)))]\<rparr>"
    by blast
  from a b 1 show ?thesis
    unfolding 2 c by simp
qed

text \<open>
  C3, as the claim states it, fails: the user presses Reject, types a space followed by
  "no" and presses again. The text is not empty, and \<open>onReject\<close> is called with "no",
  which is not the text in the field.
\<close>

theorem onReject_gets_trimmed_text_counterexample:
  "showRejectInput typing_modal
   \<and> alternativeInstruction typing_modal = '' no''
   \<and> calls (step (Click ''Send Instructions'') typing_modal) = [OnReject (Some ''no'')]
   \<and> calls (step (Click ''Send Instructions'') typing_modal)
        \<noteq> calls typing_modal @ [OnReject (Some (alternativeInstruction typing_modal))]"
proof -
  have "step (Click ''Send Instructions'') typing_modal
          = \<lparr>cur_props = idle_props, showRejectInput = False, alternativeInstruction = [],
             calls = [OnReject (Some ''no'')]\<rparr>"
    by (simp add: typing_modal_eq bash_request_def idle_props_def ToolPermissionModal_def trim_examples
        handleReject_def setShowRejectInput_def setAlternativeInstruction_def onReject_def)
  then show ?thesis
    by (simp add: typing_modal_eq)
qed

lemma step_while_loading:
  assumes "isLoading (cur_props m)" and "user_event e"
  shows "step e m = m"
  using assms
  by (cases e) (auto simp: ToolPermissionModal_def split: option.splits)

lemma step_calls_while_loading:
  assumes "isLoading (cur_props m)"
  shows "calls (step e m) = calls m"
proof (cases "user_event e")
  case True
  with assms show ?thesis by (simp add: step_while_loading)
next
  case False
  then show ?thesis by (cases e) simp_all
qed

lemma step_keeps_loading:
  assumes "isLoading (cur_props m)" and "stays_loading e"
  shows "isLoading (cur_props (step e m))"
proof (cases "user_event e")
  case True
  with assms show ?thesis by (simp add: step_while_loading)
next
  case False
  with assms(2) show ?thesis by (cases e) simp_all
qed

lemma run_calls_while_loading:
  assumes "isLoading (cur_props m)" and "\<forall>e \<in> set es. stays_loading e"
  shows "calls (run es m) = calls m"
  using assms
proof (induction es arbitrary: m)
  case Nil
  then show ?case by (simp add: run_def)
next
  case (Cons e es)
  from Cons.prems have "isLoading (cur_props (step e m))"
    by (simp add: step_keeps_loading)
  with Cons.IH [of "step e m"] Cons.prems(2)
  have "calls (run es (step e m)) = calls (step e m)" by simp
  with Cons.prems(1) show ?case
    by (simp add: run_def step_calls_while_loading)
qed

text \<open>
  C8. While \<open>isLoading\<close> is true, the Approve button of the rendered dialog is disabled,
  a click on Approve changes nothing, and no event at all adds a call: over any
  sequence of events during which \<open>isLoading\<close> stays true, the calls made, and so the
  number of calls of \<open>onApprove\<close>, stay what they were.
\<close>

theorem approve_disabled_and_not_invoked_while_loading:
  assumes "isLoading (cur_props m)"
  shows "(\<forall>v. ToolPermissionModal m = Some v \<longrightarrow>
             (\<forall>b \<in> set (buttons v). caption b = ''Approve'' \<longrightarrow> button_disabled b))
         \<and> step (Click ''Approve'') m = m
         \<and> approvals (step e m) = approvals m
         \<and> ((\<forall>e \<in> set es. stays_loading e) \<longrightarrow>
               calls (run es m) = calls m \<and> approvals (run es m) = approvals m)"
proof (intro conjI allI impI ballI)
  fix v b
  assume "ToolPermissionModal m = Some v" and "b \<in> set (buttons v)" and "caption b = ''Approve''"
  with assms show "button_disabled b"
    by (auto simp: ToolPermissionModal_def split: option.splits if_splits)
next
  from assms show "step (Click ''Approve'') m = m"
    by (rule step_while_loading) simp
next
  from assms show "approvals (step e m) = approvals m"
    by (simp add: approvals_def step_calls_while_loading)
next
  assume "\<forall>e \<in> set es. stays_loading e"
  with assms have "calls (run es m) = calls m"
    by (rule run_calls_while_loading)
  then show "calls (run es m) = calls m" and "approvals (run es m) = approvals m"
    by (simp_all add: approvals_def)
qed

theorem approve_disabled_and_not_invoked_while_loading_witness:
  "isLoading (cur_props (mount busy_props))
   \<and> map_option (map (\<lambda>b. (caption b, button_disabled b)) \<circ> buttons)
        (ToolPermissionModal (mount busy_props)) = Some [(''Reject'', True), (''Approve'', True)]
   \<and> step (Click ''Approve'') (mount busy_props) = mount busy_props
   \<and> approvals (run [Click ''Approve'', Click ''Reject'', Click ''Approve''] (mount busy_props)) = 0"
proof -
  have l: "isLoading (cur_props (mount busy_props))"
    by (simp add: busy_props_def mount_def)
  have s: "\<forall>e \<in> set [Click ''Approve'', Click ''Reject'', Click ''Approve'']. stays_loading e"
    by simp
  have z: "approvals (mount busy_props) = 0"
    by (simp add: approvals_def mount_def)
  have v: "map_option (map (\<lambda>b. (caption b, button_disabled b)) \<circ> buttons)
        (ToolPermissionModal (mount busy_props)) = Some [(''Reject'', True), (''Approve'', True)]"
    by (simp add: ToolPermissionModal_def busy_props_def bash_request_def mount_def)
  from approve_disabled_and_not_invoked_while_loading
         [OF l, of _ "[Click ''Approve'', Click ''Reject'', Click ''Approve'']"] s
  have "step (Click ''Approve'') (mount busy_props) = mount busy_props"
    and "approvals (run [Click ''Approve'', Click ''Reject'', Click ''Approve''] (mount busy_props))
           = approvals (mount busy_props)"
    by blast+
  with l z v show ?thesis by simp
qed

lemma step_while_absent:
  assumes "request (cur_props m) = None" and "user_event e"
  shows "step e m = m"
  using assms by (cases e) (simp_all add: ToolPermissionModal_def)

lemma run_while_absent:
  assumes "request (cur_props m) = None" and "\<forall>e \<in> set es. user_event e"
  shows "run es m = m"
  using assms
proof (induction es)
  case Nil
  then show ?case by (simp add: run_def)
next
  case (Cons e es)
  then have "step e m = m" by (simp add: step_while_absent)
  with Cons show ?case by (simp add: run_def)
qed

lemma run_absent_then_present:
  assumes "\<forall>e \<in> set es. user_event e"
  shows "run (Rerender \<lparr>request = None, isLoading = l\<rparr> # es
              @ [Rerender \<lparr>request = Some r, isLoading = l'\<rparr>]) m
           = m\<lparr>cur_props := \<lparr>request = Some r, isLoading = l'\<rparr>\<rparr>"
proof -
  let ?m1 = "m\<lparr>cur_props := \<lparr>request = None, isLoading = l\<rparr>\<rparr>"
  have "run es ?m1 = ?m1"
    using assms by (intro run_while_absent) simp_all
  then have "fold step es ?m1 = ?m1" by (simp add: run_def)
  then show ?thesis by (simp add: run_def)
qed

text \<open>
  C10. Let the request become absent, let the user do anything while it is absent, and
  let a request be shown again. Nothing is rendered while the request is absent and no
  callback is called, yet the reveal flag and the entered text are afterwards what they
  were before: if the field was revealed, the new request is shown with the field
  revealed and holding the old text.
\<close>

theorem local_state_survives_absent_request:
  assumes "\<forall>e \<in> set es. user_event e"
  shows "ToolPermissionModal (step (Rerender \<lparr>request = None, isLoading = l\<rparr>) m) = None
         \<and> showRejectInput
              (run (Rerender \<lparr>request = None, isLoading = l\<rparr> # es
                    @ [Rerender \<lparr>request = Some r, isLoading = l'\<rparr>]) m) = showRejectInput m
         \<and> alternativeInstruction
              (run (Rerender \<lparr>request = None, isLoading = l\<rparr> # es
                    @ [Rerender \<lparr>request = Some r, isLoading = l'\<rparr>]) m) = alternativeInstruction m
         \<and> calls
              (run (Rerender \<lparr>request = None, isLoading = l\<rparr> # es
                    @ [Rerender \<lparr>request = Some r, isLoading = l'\<rparr>]) m) = calls m
         \<and> (showRejectInput m \<longrightarrow>
               (\<exists>v. ToolPermissionModal
                       (run (Rerender \<lparr>request = None, isLoading = l\<rparr> # es
                             @ [Rerender \<lparr>request = Some r, isLoading = l'\<rparr>]) m) = Some v
                     \<and> textarea v = Some \<lparr>textarea_value = alternativeInstruction m,
                                          textarea_disabled = l'\<rparr>))"
  unfolding run_absent_then_present [OF assms]
  by (simp add: ToolPermissionModal_def)

theorem local_state_survives_absent_request_witness:
  "user_event (Click ''Approve'')
   \<and> showRejectInput
        (run [Rerender \<lparr>request = None, isLoading = False\<rparr>, Click ''Approve'',
              Rerender \<lparr>request = Some bash_request, isLoading = False\<rparr>] typing_modal)
   \<and> alternativeInstruction
        (run [Rerender \<lparr>request = None, isLoading = False\<rparr>, Click ''Approve'',
              Rerender \<lparr>request = Some bash_request, isLoading = False\<rparr>] typing_modal) = '' no''"
proof -
  have u: "\<forall>e \<in> set [Click ''Approve'']. user_event e" by simp
  have t: "showRejectInput typing_modal" "alternativeInstruction typing_modal = '' no''"
    by (simp_all add: typing_modal_eq)
  from local_state_survives_absent_request [OF u, of False typing_modal bash_request False] t
  show ?thesis by simp
qed

end
